theory Spec2Isabelle
  imports Main "HOL-Library.Word"
begin

section \<open>Inventory service: domain entities and the outbox selection\<close>

text \<open>
  A shallow embedding of the domain entities of the inventory service
  (\<^verbatim>\<open>internal/domain/entity/stock_item.go\<close>,
  \<^verbatim>\<open>internal/domain/entity/reservation.go\<close>) and of the pending-entry query of
  the outbox publisher.

  Conventions.
  \<^item> Go's \<^verbatim>\<open>int\<close> is modelled as a 64-bit word, its size on 64-bit targets:
    \<open>+\<close> and \<open>-\<close> wrap around as Go's signed arithmetic does, and comparisons are the
    signed ones (\<open><s\<close>, \<open>\<le>s\<close>); \<open>sint\<close> reads the mathematical value.
  \<^item> \<^verbatim>\<open>time.Time\<close> is an instant on the integer time line; every call of
    \<^verbatim>\<open>time.Now().UTC()\<close> is an extra argument of the method that makes it.
  \<^item> A method with a pointer receiver that returns \<^verbatim>\<open>error\<close> becomes a function
    into \<open>error + entity\<close>: \<open>Inl\<close> is the returned error (the receiver is then
    untouched), \<open>Inr\<close> the receiver after a \<^verbatim>\<open>nil\<close> return.
  \<^item> Methods are named \<open>Receiver_Method\<close>; a field name that two structs share
    carries the struct's name in the later struct.
\<close>

type_synonym go_int = "64 word"
type_synonym time = int

text \<open>The package-level error values of the entity package, and the two wrapped
  errors of the outbox query.\<close>

datatype error =
    ErrStockItemIDRequired
  | ErrStockItemProductRequired
  | ErrStockItemWarehouseRequired
  | ErrQuantityNegative
  | ErrInsufficientStock
  | ErrInsufficientReserved
  | ErrReorderPointNegative
  | ErrReorderQuantityNegative
  | ErrReservationNotPending
  | ErrReservationNotConfirmed
  | ErrReservationAlreadyReleased
  | ErrReservationAlreadyFulfilled
  | ErrReservationExpired
  | ErrQueryFailed
  | ErrScanFailed

subsection \<open>Stock items\<close>

record StockItem =
  ID :: string
  ProductID :: string
  WarehouseID :: string
  QuantityOnHand :: go_int
  QuantityReserved :: go_int
  ReorderPoint :: go_int
  ReorderQuantity :: go_int
  CreatedAt :: time
  UpdatedAt :: time

definition NewStockItem ::
  "string \<Rightarrow> string \<Rightarrow> string \<Rightarrow> go_int \<Rightarrow> go_int \<Rightarrow> time \<Rightarrow> error + StockItem" where
  "NewStockItem ident productID warehouseID reorderPoint reorderQuantity now =
     (if ident = [] then Inl ErrStockItemIDRequired
      else if productID = [] then Inl ErrStockItemProductRequired
      else if warehouseID = [] then Inl ErrStockItemWarehouseRequired
      else if reorderPoint <s 0 then Inl ErrReorderPointNegative
      else if reorderQuantity <s 0 then Inl ErrReorderQuantityNegative
      else Inr \<lparr>ID = ident, ProductID = productID, WarehouseID = warehouseID,
                QuantityOnHand = 0, QuantityReserved = 0,
                ReorderPoint = reorderPoint, ReorderQuantity = reorderQuantity,
                CreatedAt = now, UpdatedAt = now\<rparr>)"

definition StockItem_AvailableQuantity :: "StockItem \<Rightarrow> go_int" where
  "StockItem_AvailableQuantity s = QuantityOnHand s - QuantityReserved s"

definition StockItem_Reserve :: "go_int \<Rightarrow> time \<Rightarrow> StockItem \<Rightarrow> error + StockItem" where
  "StockItem_Reserve quantity now s =
     (if quantity <s 0 then Inl ErrQuantityNegative
      else if StockItem_AvailableQuantity s <s quantity then Inl ErrInsufficientStock
      else Inr (s\<lparr>QuantityReserved := QuantityReserved s + quantity, UpdatedAt := now\<rparr>))"

definition StockItem_ReleaseReservation ::
  "go_int \<Rightarrow> time \<Rightarrow> StockItem \<Rightarrow> error + StockItem" where
  "StockItem_ReleaseReservation quantity now s =
     (if quantity <s 0 then Inl ErrQuantityNegative
      else if QuantityReserved s <s quantity then Inl ErrInsufficientReserved
      else Inr (s\<lparr>QuantityReserved := QuantityReserved s - quantity, UpdatedAt := now\<rparr>))"

definition StockItem_Fulfill :: "go_int \<Rightarrow> time \<Rightarrow> StockItem \<Rightarrow> error + StockItem" where
  "StockItem_Fulfill quantity now s =
     (if quantity <s 0 then Inl ErrQuantityNegative
      else if QuantityReserved s <s quantity then Inl ErrInsufficientReserved
      else if QuantityOnHand s <s quantity then Inl ErrInsufficientStock
      else Inr (s\<lparr>QuantityReserved := QuantityReserved s - quantity,
                   QuantityOnHand := QuantityOnHand s - quantity,
                   UpdatedAt := now\<rparr>))"

definition StockItem_Replenish :: "go_int \<Rightarrow> time \<Rightarrow> StockItem \<Rightarrow> error + StockItem" where
  "StockItem_Replenish quantity now s =
     (if quantity <s 0 then Inl ErrQuantityNegative
      else Inr (s\<lparr>QuantityOnHand := QuantityOnHand s + quantity, UpdatedAt := now\<rparr>))"

text \<open>The ledger invariant of a stock item, read on the mathematical values of the
  two counters.\<close>

definition stock_inv :: "StockItem \<Rightarrow> bool" where
  "stock_inv s \<longleftrightarrow> 0 \<le>s QuantityReserved s \<and> QuantityReserved s \<le>s QuantityOnHand s"

text \<open>
  A client of the entity. \<open>stock_call\<close> lists the mutating methods the entity has, each
  with its argument; a call comes with the clock reading it makes, and a sequence of
  calls runs in order, stopping at the first error the way a caller that checks
  \<^verbatim>\<open>err != nil\<close> does.
\<close>

datatype stock_call =
    CallReserve go_int
  | CallReleaseReservation go_int
  | CallFulfill go_int
  | CallReplenish go_int

fun apply_call :: "stock_call \<Rightarrow> time \<Rightarrow> StockItem \<Rightarrow> error + StockItem" where
  "apply_call (CallReserve q) now s = StockItem_Reserve q now s"
| "apply_call (CallReleaseReservation q) now s = StockItem_ReleaseReservation q now s"
| "apply_call (CallFulfill q) now s = StockItem_Fulfill q now s"
| "apply_call (CallReplenish q) now s = StockItem_Replenish q now s"

fun run_calls :: "(stock_call \<times> time) list \<Rightarrow> StockItem \<Rightarrow> error + StockItem" where
  "run_calls [] s = Inr s"
| "run_calls ((c, now) # cs) s =
     (case apply_call c now s of Inl e \<Rightarrow> Inl e | Inr s' \<Rightarrow> run_calls cs s')"

text \<open>A replenishment fits when the new on-hand quantity is still an \<^verbatim>\<open>int\<close>,
  that is, when the addition does not wrap around; the other calls always fit.\<close>

fun call_fits :: "stock_call \<Rightarrow> StockItem \<Rightarrow> bool" where
  "call_fits (CallReplenish q) s \<longleftrightarrow> sint (QuantityOnHand s) + sint q < 2 ^ 63"
| "call_fits _ s \<longleftrightarrow> True"

fun calls_fit :: "(stock_call \<times> time) list \<Rightarrow> StockItem \<Rightarrow> bool" where
  "calls_fit [] s \<longleftrightarrow> True"
| "calls_fit ((c, now) # cs) s \<longleftrightarrow>
     call_fits c s \<and> (case apply_call c now s of Inl e \<Rightarrow> True | Inr s' \<Rightarrow> calls_fit cs s')"


text \<open>A stock item with the given counters, for concrete evaluations.\<close>

definition item_with :: "go_int \<Rightarrow> go_int \<Rightarrow> time \<Rightarrow> StockItem" where
  "item_with on_hand reserved updated =
     \<lparr>ID = ''S1'', ProductID = ''P1'', WarehouseID = ''W1'',
      QuantityOnHand = on_hand, QuantityReserved = reserved,
      ReorderPoint = 0, ReorderQuantity = 0, CreatedAt = 0, UpdatedAt = updated\<rparr>"

subsection \<open>Reservations\<close>

type_synonym ReservationStatus = string

definition ReservationStatusPending :: ReservationStatus where
  "ReservationStatusPending = ''PENDING''"

definition ReservationStatusConfirmed :: ReservationStatus where
  "ReservationStatusConfirmed = ''CONFIRMED''"

definition ReservationStatusReleased :: ReservationStatus where
  "ReservationStatusReleased = ''RELEASED''"

definition ReservationStatusFulfilled :: ReservationStatus where
  "ReservationStatusFulfilled = ''FULFILLED''"

definition ReservationStatusExpired :: ReservationStatus where
  "ReservationStatusExpired = ''EXPIRED''"

record ReservationItem =
  StockItemID :: string
  ItemProductID :: string
  ItemWarehouseID :: string
  Quantity :: go_int

record Reservation =
  ReservationID :: string
  OrderID :: string
  Items :: "ReservationItem list"
  Status :: ReservationStatus
  ExpiresAt :: time
  ReservationCreatedAt :: time
  ReservationUpdatedAt :: time
  ReleasedAt :: "time option"
  FulfilledAt :: "time option"

text \<open>\<^verbatim>\<open>Confirm\<close> reads the clock twice: \<open>now\<close> for the expiry check
  (\<^verbatim>\<open>time.Now().UTC().After(r.ExpiresAt)\<close>, a strict comparison) and \<open>now'\<close> for
  \<^verbatim>\<open>UpdatedAt\<close>.\<close>

definition Reservation_Confirm :: "time \<Rightarrow> time \<Rightarrow> Reservation \<Rightarrow> error + Reservation" where
  "Reservation_Confirm now now' r =
     (if Status r \<noteq> ReservationStatusPending then Inl ErrReservationNotPending
      else if ExpiresAt r < now then Inl ErrReservationExpired
      else Inr (r\<lparr>Status := ReservationStatusConfirmed, ReservationUpdatedAt := now'\<rparr>))"

definition Reservation_Release :: "time \<Rightarrow> Reservation \<Rightarrow> error + Reservation" where
  "Reservation_Release now r =
     (if Status r = ReservationStatusReleased then Inl ErrReservationAlreadyReleased
      else if Status r = ReservationStatusFulfilled then Inl ErrReservationAlreadyFulfilled
      else Inr (r\<lparr>Status := ReservationStatusReleased, ReleasedAt := Some now,
                   ReservationUpdatedAt := now\<rparr>))"

definition Reservation_Fulfill :: "time \<Rightarrow> Reservation \<Rightarrow> error + Reservation" where
  "Reservation_Fulfill now r =
     (if Status r = ReservationStatusFulfilled then Inl ErrReservationAlreadyFulfilled
      else if Status r = ReservationStatusReleased then Inl ErrReservationAlreadyReleased
      else if Status r \<noteq> ReservationStatusConfirmed \<and> Status r \<noteq> ReservationStatusPending
        then Inl ErrReservationNotConfirmed
      else Inr (r\<lparr>Status := ReservationStatusFulfilled, FulfilledAt := Some now,
                   ReservationUpdatedAt := now\<rparr>))"

definition Reservation_Expire :: "time \<Rightarrow> Reservation \<Rightarrow> error + Reservation" where
  "Reservation_Expire now r =
     (if Status r \<noteq> ReservationStatusPending \<and> Status r \<noteq> ReservationStatusConfirmed
        then Inl ErrReservationNotPending
      else Inr (r\<lparr>Status := ReservationStatusExpired, ReservationUpdatedAt := now\<rparr>))"

text \<open>The terminal states of the reservation state machine.\<close>

definition terminal :: "ReservationStatus \<Rightarrow> bool" where
  "terminal st \<longleftrightarrow>
     st = ReservationStatusReleased \<or> st = ReservationStatusExpired \<or>
     st = ReservationStatusFulfilled"

text \<open>A reservation of one item in the given status, for concrete evaluations.\<close>

definition reservation_in :: "ReservationStatus \<Rightarrow> time \<Rightarrow> Reservation" where
  "reservation_in st expires =
     \<lparr>ReservationID = ''R1'', OrderID = ''O1'',
      Items = [\<lparr>StockItemID = ''S1'', ItemProductID = ''P1'', ItemWarehouseID = ''W1'',
                Quantity = 3\<rparr>],
      Status = st, ExpiresAt = expires, ReservationCreatedAt = 0, ReservationUpdatedAt = 0,
      ReleasedAt = None, FulfilledAt = None\<rparr>"

subsection \<open>The outbox publisher's pending-entry selection\<close>

record OutboxEntry =
  EntryID :: string
  AggregateType :: string
  AggregateID :: string
  EventType :: string
  Payload :: "8 word list"
  CorrelationID :: string
  EntryCreatedAt :: time
  PublishedAt :: "time option"
  RetryCount :: go_int
  LastError :: "string option"

text \<open>
  \<^verbatim>\<open>fetchPendingEntries\<close> sends one SQL statement to PostgreSQL and appends every
  returned row to a slice. The statement is embedded clause by clause over the
  \<^verbatim>\<open>outbox\<close> table, a list of rows in the order the scan meets them:
  \<^item> \<^verbatim>\<open>WHERE published_at IS NULL AND retry_count < $1\<close> is \<open>where_pending\<close>;
  \<^item> \<^verbatim>\<open>ORDER BY created_at ASC\<close> is a sort on \<open>EntryCreatedAt\<close> (rows with equal
    keys stay in scan order; the table is any list, so every tie order occurs);
  \<^item> \<^verbatim>\<open>FOR UPDATE SKIP LOCKED\<close> drops the rows that \<open>locked\<close> says a peer holds;
  \<^item> \<^verbatim>\<open>LIMIT $2\<close> keeps the first \<open>limit\<close> rows, and the server rejects a
    negative limit, which the method reports as its wrapped query error.
  Failures of the connection or of \<^verbatim>\<open>Scan\<close> are outside the model.
\<close>

definition where_pending :: "go_int \<Rightarrow> OutboxEntry \<Rightarrow> bool" where
  "where_pending max_retries e \<longleftrightarrow> PublishedAt e = None \<and> RetryCount e <s max_retries"

definition outbox_query ::
  "go_int \<Rightarrow> go_int \<Rightarrow> (OutboxEntry \<Rightarrow> bool) \<Rightarrow> OutboxEntry list \<Rightarrow> error + OutboxEntry list" where
  "outbox_query max_retries limit locked outbox =
     (if limit <s 0 then Inl ErrQueryFailed
      else Inr (take (nat (sint limit))
                  (filter (\<lambda>e. \<not> locked e)
                     (sort_key EntryCreatedAt (filter (where_pending max_retries) outbox)))))"

fun scan_rows :: "OutboxEntry list \<Rightarrow> OutboxEntry list \<Rightarrow> OutboxEntry list" where
  "scan_rows entries [] = entries"
| "scan_rows entries (row # rows) = scan_rows (entries @ [row]) rows"

definition fetchPendingEntries ::
  "go_int \<Rightarrow> go_int \<Rightarrow> (OutboxEntry \<Rightarrow> bool) \<Rightarrow> OutboxEntry list \<Rightarrow> error + OutboxEntry list" where
  "fetchPendingEntries max_retries limit locked outbox =
     (case outbox_query max_retries limit locked outbox of
        Inl e \<Rightarrow> Inl ErrQueryFailed
      | Inr rows \<Rightarrow> Inr (scan_rows [] rows))"

text \<open>An outbox row with the given id, creation time, publication time and retry
  count, for concrete evaluations.\<close>

definition outbox_row :: "string \<Rightarrow> time \<Rightarrow> time option \<Rightarrow> go_int \<Rightarrow> OutboxEntry" where
  "outbox_row ident created published retries =
     \<lparr>EntryID = ident, AggregateType = ''Reservation'', AggregateID = ''R1'',
      EventType = ''inventory.stock.reserved'', Payload = [], CorrelationID = ''C1'',
      EntryCreatedAt = created, PublishedAt = published, RetryCount = retries,
      LastError = None\<rparr>"

section \<open>Arithmetic of Go integers\<close>

lemma go_int_range: "- (2 ^ 63) \<le> sint (a :: go_int) \<and> sint a < 2 ^ 63"
  using sint_ge [of a] sint_lt [of a] by simp

lemma sint_add_exact:
  "- (2 ^ 63) \<le> sint a + sint b \<Longrightarrow> sint a + sint b < 2 ^ 63 \<Longrightarrow>
   sint (a + b :: go_int) = sint a + sint b"
  by (simp add: sint_word_ariths signed_take_bit_int_eq_self)

lemma sint_sub_exact:
  "- (2 ^ 63) \<le> sint a - sint b \<Longrightarrow> sint a - sint b < 2 ^ 63 \<Longrightarrow>
   sint (a - b :: go_int) = sint a - sint b"
  by (simp add: sint_word_ariths signed_take_bit_int_eq_self)

lemma stock_inv_sint:
  "stock_inv s \<longleftrightarrow> 0 \<le> sint (QuantityReserved s) \<and> sint (QuantityReserved s) \<le> sint (QuantityOnHand s)"
  by (simp add: stock_inv_def word_sle_eq)

lemma available_exact:
  assumes "stock_inv s"
  shows "sint (StockItem_AvailableQuantity s) = sint (QuantityOnHand s) - sint (QuantityReserved s)"
proof -
  from assms have "0 \<le> sint (QuantityReserved s)" "sint (QuantityReserved s) \<le> sint (QuantityOnHand s)"
    by (simp_all add: stock_inv_sint)
  moreover note go_int_range [of "QuantityOnHand s"]
  ultimately show ?thesis
    unfolding StockItem_AvailableQuantity_def by (intro sint_sub_exact) linarith+
qed



lemma reserve_exact:
  assumes "stock_inv s" "0 \<le>s q" "q \<le>s StockItem_AvailableQuantity s"
  shows "sint (QuantityReserved s + q) = sint (QuantityReserved s) + sint q"
    and "sint (QuantityReserved s) + sint q \<le> sint (QuantityOnHand s)"
proof -
  from assms have *: "0 \<le> sint (QuantityReserved s)" "sint (QuantityReserved s) \<le> sint (QuantityOnHand s)"
    "0 \<le> sint q" "sint q \<le> sint (QuantityOnHand s) - sint (QuantityReserved s)"
    using available_exact [of s] by (simp_all add: stock_inv_sint word_sle_eq)
  then show le: "sint (QuantityReserved s) + sint q \<le> sint (QuantityOnHand s)" by linarith
  show "sint (QuantityReserved s + q) = sint (QuantityReserved s) + sint q"
    using * le go_int_range [of "QuantityOnHand s"] by (intro sint_add_exact) linarith+
qed

lemma sub_exact:
  assumes "0 \<le>s q" "q \<le>s a"
  shows "sint (a - q :: go_int) = sint a - sint q"
proof -
  from assms have "0 \<le> sint q" "sint q \<le> sint a" by (simp_all add: word_sle_eq)
  then show ?thesis using go_int_range [of a] by (intro sint_sub_exact) linarith+
qed

section \<open>The ledger invariant is preserved\<close>

lemma Reserve_preserves:
  assumes "stock_inv s" "StockItem_Reserve q now s = Inr s'"
  shows "stock_inv s'"
proof -
  from assms(2) have q: "0 \<le>s q" "q \<le>s StockItem_AvailableQuantity s"
    and s': "s' = s\<lparr>QuantityReserved := QuantityReserved s + q, UpdatedAt := now\<rparr>"
    by (auto simp: StockItem_Reserve_def word_sless_alt word_sle_eq split: if_splits)
  from reserve_exact [OF assms(1) q] assms(1) q(1) show ?thesis
    by (simp add: s' stock_inv_sint word_sle_eq)
qed

lemma ReleaseReservation_preserves:
  assumes "stock_inv s" "StockItem_ReleaseReservation q now s = Inr s'"
  shows "stock_inv s'"
proof -
  from assms(2) have q: "0 \<le>s q" "q \<le>s QuantityReserved s"
    and s': "s' = s\<lparr>QuantityReserved := QuantityReserved s - q, UpdatedAt := now\<rparr>"
    by (auto simp: StockItem_ReleaseReservation_def word_sless_alt word_sle_eq split: if_splits)
  from sub_exact [OF q] assms(1) q show ?thesis
    by (simp add: s' stock_inv_sint word_sle_eq)
qed

lemma Fulfill_preserves:
  assumes "stock_inv s" "StockItem_Fulfill q now s = Inr s'"
  shows "stock_inv s'"
proof -
  from assms(2) have q: "0 \<le>s q" "q \<le>s QuantityReserved s" "q \<le>s QuantityOnHand s"
    and s': "s' = s\<lparr>QuantityReserved := QuantityReserved s - q,
                      QuantityOnHand := QuantityOnHand s - q, UpdatedAt := now\<rparr>"
    by (auto simp: StockItem_Fulfill_def word_sless_alt word_sle_eq split: if_splits)
  from sub_exact [OF q(1,2)] sub_exact [OF q(1,3)] assms(1) q show ?thesis
    by (simp add: s' stock_inv_sint word_sle_eq)
qed

lemma replenish_exact:
  assumes "0 \<le>s q" "sint (QuantityOnHand s) + sint q < 2 ^ 63"
  shows "sint (QuantityOnHand s + q) = sint (QuantityOnHand s) + sint q"
proof -
  from assms(1) have "0 \<le> sint q" by (simp add: word_sle_eq)
  with assms(2) go_int_range [of "QuantityOnHand s"] show ?thesis
    by (intro sint_add_exact) linarith+
qed

lemma Replenish_preserves:
  assumes "stock_inv s" "sint (QuantityOnHand s) + sint q < 2 ^ 63"
    "StockItem_Replenish q now s = Inr s'"
  shows "stock_inv s'"
proof -
  from assms(3) have q: "0 \<le>s q"
    and s': "s' = s\<lparr>QuantityOnHand := QuantityOnHand s + q, UpdatedAt := now\<rparr>"
    by (auto simp: StockItem_Replenish_def word_sless_alt word_sle_eq split: if_splits)
  from replenish_exact [OF q assms(2)] assms(1) q show ?thesis
    by (simp add: s' stock_inv_sint word_sle_eq)
qed

lemma apply_call_preserves:
  "stock_inv s \<Longrightarrow> call_fits c s \<Longrightarrow> apply_call c now s = Inr s' \<Longrightarrow> stock_inv s'"
  by (cases c)
    (auto intro: Reserve_preserves ReleaseReservation_preserves Fulfill_preserves
      Replenish_preserves)

lemma run_calls_preserves:
  "stock_inv s \<Longrightarrow> calls_fit cs s \<Longrightarrow> run_calls cs s = Inr s' \<Longrightarrow> stock_inv s'"
proof (induction cs arbitrary: s)
  case Nil
  then show ?case by simp
next
  case (Cons a cs)
  obtain c now where a: "a = (c, now)" by (cases a)
  from Cons.prems(3) a obtain s1 where s1: "apply_call c now s = Inr s1" "run_calls cs s1 = Inr s'"
    by (auto split: sum.splits)
  from Cons.prems(2) a s1(1) have fits: "call_fits c s" "calls_fit cs s1" by simp_all
  from apply_call_preserves [OF Cons.prems(1) fits(1) s1(1)] have "stock_inv s1" .
  from Cons.IH [OF this fits(2) s1(2)] show ?case .
qed

lemma NewStockItem_inv: "NewStockItem i p w rp rq t0 = Inr s0 \<Longrightarrow> stock_inv s0"
  by (auto simp: NewStockItem_def stock_inv_def split: if_splits)

section \<open>Reservation statuses and the scan loop\<close>

lemmas status_defs = ReservationStatusPending_def ReservationStatusConfirmed_def
  ReservationStatusReleased_def ReservationStatusFulfilled_def ReservationStatusExpired_def

lemma terminal_rejected:
  assumes "terminal (Status r)"
  shows "\<exists>e. Reservation_Confirm now now' r = Inl e"
    and "\<exists>e. Reservation_Fulfill now r = Inl e"
    and "\<exists>e. Reservation_Expire now r = Inl e"
    and "Status r \<noteq> ReservationStatusExpired \<Longrightarrow> \<exists>e. Reservation_Release now r = Inl e"
  using assms
  by (auto simp: terminal_def Reservation_Confirm_def Reservation_Fulfill_def
      Reservation_Expire_def Reservation_Release_def status_defs)

lemma scan_rows_append: "scan_rows entries rows = entries @ rows"
  by (induction rows arbitrary: entries) simp_all

lemma fetch_eq:
  "fetchPendingEntries max_retries limit locked outbox =
     (if limit <s 0 then Inl ErrQueryFailed
      else Inr (take (nat (sint limit))
                  (filter (\<lambda>e. \<not> locked e)
                     (sort_key EntryCreatedAt (filter (where_pending max_retries) outbox)))))"
  by (simp add: fetchPendingEntries_def outbox_query_def scan_rows_append)

section \<open>Stock item claims\<close>

text \<open>
  Claim C2, as amended. A stock item created by \<^verbatim>\<open>NewStockItem\<close> satisfies
  \<open>0 \<le> QuantityReserved \<le> QuantityOnHand\<close>, and so does every state reached from it by a
  sequence of successful calls of \<^verbatim>\<open>Reserve\<close>, \<^verbatim>\<open>ReleaseReservation\<close>,
  \<^verbatim>\<open>Fulfill\<close> and \<^verbatim>\<open>Replenish\<close>, provided every replenishment fits: the new
  on-hand quantity does not exceed the largest \<^verbatim>\<open>int\<close>, \<open>2\<^sup>6\<^sup>3 - 1\<close>.
\<close>

theorem ledger_invariant_reachable:
  assumes "NewStockItem i p w rp rq t0 = Inr s0"
    and "calls_fit cs s0" and "run_calls cs s0 = Inr s"
  shows "stock_inv s0 \<and> stock_inv s"
  using NewStockItem_inv [OF assms(1)] run_calls_preserves [OF _ assms(2,3)] by simp

text \<open>
  The amended claim C2 at a concrete run: replenish 10, reserve 4, fulfill 3,
  release 1 on a fresh item ends with 7 on hand and nothing reserved.
\<close>

theorem ledger_invariant_reachable_witness:
  "NewStockItem ''S1'' ''P1'' ''W1'' 0 0 0 = Inr (item_with 0 0 0) \<and>
   calls_fit [(CallReplenish 10, 1), (CallReserve 4, 2), (CallFulfill 3, 3),
              (CallReleaseReservation 1, 4)] (item_with 0 0 0) \<and>
   run_calls [(CallReplenish 10, 1), (CallReserve 4, 2), (CallFulfill 3, 3),
              (CallReleaseReservation 1, 4)] (item_with 0 0 0) = Inr (item_with 7 0 4) \<and>
   stock_inv (item_with 0 0 0) \<and> stock_inv (item_with 7 0 4)"
proof -
  have n: "NewStockItem ''S1'' ''P1'' ''W1'' 0 0 0 = Inr (item_with 0 0 0)"
    by (simp add: NewStockItem_def item_with_def)
  have f: "calls_fit [(CallReplenish 10, 1), (CallReserve 4, 2), (CallFulfill 3, 3),
              (CallReleaseReservation 1, 4)] (item_with 0 0 0)"
    by (simp add: StockItem_Replenish_def StockItem_Reserve_def StockItem_Fulfill_def
        StockItem_ReleaseReservation_def StockItem_AvailableQuantity_def item_with_def
        word_sless_alt)
  have r: "run_calls [(CallReplenish 10, 1), (CallReserve 4, 2), (CallFulfill 3, 3),
              (CallReleaseReservation 1, 4)] (item_with 0 0 0) = Inr (item_with 7 0 4)"
    by (simp add: StockItem_Replenish_def StockItem_Reserve_def StockItem_Fulfill_def
        StockItem_ReleaseReservation_def StockItem_AvailableQuantity_def item_with_def
        word_sless_alt)
  from ledger_invariant_reachable [OF n f r] n f r show ?thesis by simp
qed

text \<open>
  Claim C2 as stated fails: \<^verbatim>\<open>Replenish\<close> adds without an overflow check, so on a
  fresh item \<^verbatim>\<open>Replenish(9223372036854775807)\<close> followed by \<^verbatim>\<open>Replenish(1)\<close>
  both succeed and leave \<^verbatim>\<open>QuantityOnHand = -9223372036854775808\<close>, below the
  reserved quantity 0.
\<close>

theorem ledger_invariant_overflow_counterexample:
  "NewStockItem ''S1'' ''P1'' ''W1'' 0 0 0 = Inr (item_with 0 0 0) \<and>
   run_calls [(CallReplenish 9223372036854775807, 1), (CallReplenish 1, 2)] (item_with 0 0 0)
     = Inr (item_with (- 9223372036854775808) 0 2) \<and>
   \<not> stock_inv (item_with (- 9223372036854775808) 0 2)"
  by (simp add: NewStockItem_def StockItem_Replenish_def item_with_def stock_inv_def
      word_sless_alt word_sle_eq)



text \<open>
  Claim C4, as amended. For every stock item that satisfies the ledger invariant
  \<open>0 \<le> QuantityReserved \<le> QuantityOnHand\<close> and every quantity \<open>q > 0\<close> with available
  quantity at least \<open>q\<close>, \<^verbatim>\<open>Reserve(q)\<close> and then \<^verbatim>\<open>ReleaseReservation(q)\<close> both
  succeed and return \<^verbatim>\<open>QuantityOnHand\<close> and \<^verbatim>\<open>QuantityReserved\<close> to their values
  before the \<^verbatim>\<open>Reserve\<close>.
\<close>

theorem Reserve_then_Release_roundtrip:
  assumes "stock_inv s" and "0 <s q" and "q \<le>s StockItem_AvailableQuantity s"
  shows "\<exists>s1 s2. StockItem_Reserve q now s = Inr s1
          \<and> StockItem_ReleaseReservation q now' s1 = Inr s2
          \<and> QuantityOnHand s2 = QuantityOnHand s
          \<and> QuantityReserved s2 = QuantityReserved s"
proof -
  from assms(2) have nonneg: "\<not> q <s 0" "0 \<le>s q"
    by (simp_all add: word_sless_alt word_sle_eq)
  let ?s1 = "s\<lparr>QuantityReserved := QuantityReserved s + q, UpdatedAt := now\<rparr>"
  let ?s2 = "?s1\<lparr>QuantityReserved := QuantityReserved ?s1 - q, UpdatedAt := now'\<rparr>"
  from assms(3) nonneg have r: "StockItem_Reserve q now s = Inr ?s1"
    by (simp add: StockItem_Reserve_def word_sless_alt word_sle_eq)
  from reserve_exact [OF assms(1) nonneg(2) assms(3)] assms(1)
  have "\<not> QuantityReserved ?s1 <s q"
    by (simp add: word_sless_alt stock_inv_sint)
  with nonneg have "StockItem_ReleaseReservation q now' ?s1 = Inr ?s2"
    by (simp add: StockItem_ReleaseReservation_def)
  moreover have "QuantityOnHand ?s2 = QuantityOnHand s" "QuantityReserved ?s2 = QuantityReserved s"
    by simp_all
  ultimately show ?thesis using r by blast
qed

text \<open>
  The amended claim C4 at a concrete item: 10 on hand, 6 reserved, \<open>q = 4\<close>.
\<close>

theorem Reserve_then_Release_roundtrip_witness:
  "stock_inv (item_with 10 6 0) \<and> (0 :: go_int) <s 4 \<and>
   (4 :: go_int) \<le>s StockItem_AvailableQuantity (item_with 10 6 0) \<and>
   (\<exists>s1 s2. StockItem_Reserve 4 1 (item_with 10 6 0) = Inr s1
          \<and> StockItem_ReleaseReservation 4 2 s1 = Inr s2
          \<and> QuantityOnHand s2 = 10 \<and> QuantityReserved s2 = 6)"
proof -
  have i: "stock_inv (item_with 10 6 0)"
    by (simp add: stock_inv_def item_with_def word_sle_eq)
  have q: "(0 :: go_int) <s 4" by (simp add: word_sless_alt)
  have a: "(4 :: go_int) \<le>s StockItem_AvailableQuantity (item_with 10 6 0)"
    by (simp add: StockItem_AvailableQuantity_def item_with_def word_sle_eq)
  from Reserve_then_Release_roundtrip [OF i q a, of 1 2] i q a show ?thesis by (simp add: item_with_def)
qed

text \<open>
  Claim C4 as stated, for every stock item, fails on an item outside the invariant:
  with 0 on hand and \<open>-5\<close> reserved the available quantity is 5, \<^verbatim>\<open>Reserve(3)\<close>
  succeeds and leaves \<open>-2\<close> reserved, and \<^verbatim>\<open>ReleaseReservation(3)\<close> then fails with
  the insufficient-reserved error.
\<close>

theorem Reserve_then_Release_counterexample:
  "(0 :: go_int) <s 3 \<and>
   (3 :: go_int) \<le>s StockItem_AvailableQuantity (item_with 0 (- 5) 0) \<and>
   StockItem_Reserve 3 1 (item_with 0 (- 5) 0) = Inr (item_with 0 (- 2) 1) \<and>
   StockItem_ReleaseReservation 3 2 (item_with 0 (- 2) 1) = Inl ErrInsufficientReserved"
  by (simp add: StockItem_Reserve_def StockItem_ReleaseReservation_def
      StockItem_AvailableQuantity_def item_with_def word_sless_alt word_sle_eq)

text \<open>
  Claim C5. For every stock item and every quantity \<open>q > 0\<close>: if both
  \<^verbatim>\<open>QuantityReserved\<close> and \<^verbatim>\<open>QuantityOnHand\<close> are at least \<open>q\<close>, \<^verbatim>\<open>Fulfill(q)\<close>
  succeeds and decreases both by exactly \<open>q\<close> (no wrap-around occurs); if
  \<^verbatim>\<open>QuantityReserved < q\<close> it fails with the insufficient-reserved error and changes
  nothing. Whenever \<^verbatim>\<open>Reserve(q)\<close> and then \<^verbatim>\<open>Fulfill(q)\<close> succeed, on-hand has gone
  down by exactly \<open>q\<close>; and on an item that satisfies the ledger invariant with at least
  \<open>q\<close> available, both do succeed.
\<close>

theorem Fulfill_counters:
  assumes "0 <s q"
  shows "(q \<le>s QuantityReserved s \<and> q \<le>s QuantityOnHand s \<longrightarrow>
            StockItem_Fulfill q now s =
              Inr (s\<lparr>QuantityReserved := QuantityReserved s - q,
                     QuantityOnHand := QuantityOnHand s - q, UpdatedAt := now\<rparr>)
          \<and> sint (QuantityReserved s - q) = sint (QuantityReserved s) - sint q
          \<and> sint (QuantityOnHand s - q) = sint (QuantityOnHand s) - sint q)
       \<and> (QuantityReserved s <s q \<longrightarrow>
            StockItem_Fulfill q now s = Inl ErrInsufficientReserved)
       \<and> (\<forall>s1 s2. StockItem_Reserve q now s = Inr s1 \<and> StockItem_Fulfill q now' s1 = Inr s2 \<longrightarrow>
            QuantityOnHand s2 = QuantityOnHand s - q
          \<and> sint (QuantityOnHand s2) = sint (QuantityOnHand s) - sint q)
       \<and> (stock_inv s \<and> q \<le>s StockItem_AvailableQuantity s \<longrightarrow>
            (\<exists>s1 s2. StockItem_Reserve q now s = Inr s1 \<and> StockItem_Fulfill q now' s1 = Inr s2))"
proof -
  from assms have nonneg: "\<not> q <s 0" "0 \<le>s q"
    by (simp_all add: word_sless_alt word_sle_eq)
  have p1: "StockItem_Fulfill q now s =
              Inr (s\<lparr>QuantityReserved := QuantityReserved s - q,
                     QuantityOnHand := QuantityOnHand s - q, UpdatedAt := now\<rparr>)
          \<and> sint (QuantityReserved s - q) = sint (QuantityReserved s) - sint q
          \<and> sint (QuantityOnHand s - q) = sint (QuantityOnHand s) - sint q"
    if "q \<le>s QuantityReserved s" "q \<le>s QuantityOnHand s"
    using that nonneg sub_exact [of q "QuantityReserved s"] sub_exact [of q "QuantityOnHand s"]
    by (simp add: StockItem_Fulfill_def word_sless_alt word_sle_eq)
  have p2: "StockItem_Fulfill q now s = Inl ErrInsufficientReserved"
    if "QuantityReserved s <s q"
    using that nonneg by (simp add: StockItem_Fulfill_def)
  have p3: "QuantityOnHand s2 = QuantityOnHand s - q
          \<and> sint (QuantityOnHand s2) = sint (QuantityOnHand s) - sint q"
    if r: "StockItem_Reserve q now s = Inr s1" and f: "StockItem_Fulfill q now' s1 = Inr s2"
    for s1 s2
  proof -
    from r have h1: "QuantityOnHand s1 = QuantityOnHand s"
      by (auto simp: StockItem_Reserve_def split: if_splits)
    from f have h2: "QuantityOnHand s2 = QuantityOnHand s1 - q" "q \<le>s QuantityOnHand s1"
      by (auto simp: StockItem_Fulfill_def word_sless_alt word_sle_eq split: if_splits)
    with h1 sub_exact [of q "QuantityOnHand s"] nonneg show ?thesis by simp
  qed
  have p4: "\<exists>s1 s2. StockItem_Reserve q now s = Inr s1 \<and> StockItem_Fulfill q now' s1 = Inr s2"
    if inv: "stock_inv s" and av: "q \<le>s StockItem_AvailableQuantity s"
  proof -
    from av nonneg have "StockItem_Reserve q now s =
        Inr (s\<lparr>QuantityReserved := QuantityReserved s + q, UpdatedAt := now\<rparr>)"
      by (simp add: StockItem_Reserve_def word_sless_alt word_sle_eq)
    moreover from reserve_exact [OF inv nonneg(2) av] inv nonneg
    have "\<not> QuantityReserved s + q <s q" "\<not> QuantityOnHand s <s q"
      by (simp_all add: word_sless_alt word_sle_eq stock_inv_sint)
    ultimately show ?thesis using nonneg by (simp add: StockItem_Fulfill_def)
  qed
  show ?thesis using p1 p2 p3 p4 by blast
qed

text \<open>
  Claim C5 at concrete items: fulfilling 3 of 3 reserved out of 10, failing with 2
  reserved, and reserve-then-fulfill of 3 on an item with 10 on hand.
\<close>

theorem Fulfill_counters_witness:
  "(0 :: go_int) <s 3 \<and>
   StockItem_Fulfill 3 9 (item_with 10 3 0) = Inr (item_with 7 0 9) \<and>
   StockItem_Fulfill 3 9 (item_with 10 2 0) = Inl ErrInsufficientReserved \<and>
   stock_inv (item_with 10 0 0) \<and>
   (\<exists>s1 s2. StockItem_Reserve 3 8 (item_with 10 0 0) = Inr s1 \<and>
            StockItem_Fulfill 3 9 s1 = Inr s2 \<and> QuantityOnHand s2 = 7)"
proof -
  have q: "(0 :: go_int) <s 3" by (simp add: word_sless_alt)
  have a: "(3 :: go_int) \<le>s QuantityReserved (item_with 10 3 0) \<and>
           (3 :: go_int) \<le>s QuantityOnHand (item_with 10 3 0)"
    by (simp add: item_with_def word_sle_eq)
  have b: "QuantityReserved (item_with 10 2 0) <s (3 :: go_int)"
    by (simp add: item_with_def word_sless_alt)
  have i: "stock_inv (item_with 10 0 0)"
    by (simp add: stock_inv_def item_with_def word_sle_eq)
  have v: "(3 :: go_int) \<le>s StockItem_AvailableQuantity (item_with 10 0 0)"
    by (simp add: StockItem_AvailableQuantity_def item_with_def word_sle_eq)
  from Fulfill_counters [OF q, of "item_with 10 3 0" 9] a
  have 1: "StockItem_Fulfill 3 9 (item_with 10 3 0) = Inr (item_with 7 0 9)"
    by (simp add: item_with_def)
  from Fulfill_counters [OF q, of "item_with 10 2 0" 9] b
  have 2: "StockItem_Fulfill 3 9 (item_with 10 2 0) = Inl ErrInsufficientReserved"
    by blast
  from Fulfill_counters [OF q, of "item_with 10 0 0" 8 9] i v
  obtain s1 s2 where s: "StockItem_Reserve 3 8 (item_with 10 0 0) = Inr s1"
    "StockItem_Fulfill 3 9 s1 = Inr s2" by blast
  with Fulfill_counters [OF q, of "item_with 10 0 0" 8 9]
  have "QuantityOnHand s2 = QuantityOnHand (item_with 10 0 0) - 3" by blast
  then have "QuantityOnHand s2 = 7" by (simp add: item_with_def)
  with s q 1 2 i show ?thesis by blast
qed




text \<open>
  Claim C9, as amended. For every stock item, each of \<^verbatim>\<open>Reserve\<close>,
  \<^verbatim>\<open>ReleaseReservation\<close>, \<^verbatim>\<open>Fulfill\<close> and \<^verbatim>\<open>Replenish\<close> returns the
  negative-quantity error exactly when its argument is negative, so zero is never
  refused as negative. On every stock item that satisfies the ledger invariant
  \<open>0 \<le> QuantityReserved \<le> QuantityOnHand\<close>, a quantity of zero succeeds in all four and
  changes neither counter (only \<^verbatim>\<open>UpdatedAt\<close>).
\<close>

theorem negative_quantity_rejected:
  "(StockItem_Reserve q now s = Inl ErrQuantityNegative \<longleftrightarrow> q <s 0)
 \<and> (StockItem_ReleaseReservation q now s = Inl ErrQuantityNegative \<longleftrightarrow> q <s 0)
 \<and> (StockItem_Fulfill q now s = Inl ErrQuantityNegative \<longleftrightarrow> q <s 0)
 \<and> (StockItem_Replenish q now s = Inl ErrQuantityNegative \<longleftrightarrow> q <s 0)
 \<and> (stock_inv s \<longrightarrow>
       StockItem_Reserve 0 now s = Inr (s\<lparr>UpdatedAt := now\<rparr>)
     \<and> StockItem_ReleaseReservation 0 now s = Inr (s\<lparr>UpdatedAt := now\<rparr>)
     \<and> StockItem_Fulfill 0 now s = Inr (s\<lparr>UpdatedAt := now\<rparr>)
     \<and> StockItem_Replenish 0 now s = Inr (s\<lparr>UpdatedAt := now\<rparr>))"
proof -
  have neg: "StockItem_Reserve q now s = Inl ErrQuantityNegative \<longleftrightarrow> q <s 0"
    "StockItem_ReleaseReservation q now s = Inl ErrQuantityNegative \<longleftrightarrow> q <s 0"
    "StockItem_Fulfill q now s = Inl ErrQuantityNegative \<longleftrightarrow> q <s 0"
    "StockItem_Replenish q now s = Inl ErrQuantityNegative \<longleftrightarrow> q <s 0"
    by (simp_all add: StockItem_Reserve_def StockItem_ReleaseReservation_def
        StockItem_Fulfill_def StockItem_Replenish_def)
  have zero: "StockItem_Reserve 0 now s = Inr (s\<lparr>UpdatedAt := now\<rparr>)
     \<and> StockItem_ReleaseReservation 0 now s = Inr (s\<lparr>UpdatedAt := now\<rparr>)
     \<and> StockItem_Fulfill 0 now s = Inr (s\<lparr>UpdatedAt := now\<rparr>)
     \<and> StockItem_Replenish 0 now s = Inr (s\<lparr>UpdatedAt := now\<rparr>)" if inv: "stock_inv s"
  proof -
    from inv have "0 \<le> sint (QuantityReserved s)" "0 \<le> sint (QuantityOnHand s)"
      "0 \<le> sint (StockItem_AvailableQuantity s)"
      using available_exact [OF inv] by (simp_all add: stock_inv_sint)
    then show ?thesis
      by (simp add: StockItem_Reserve_def StockItem_ReleaseReservation_def
          StockItem_Fulfill_def StockItem_Replenish_def word_sless_alt)
  qed
  show ?thesis using neg zero by blast
qed

text \<open>
  The amended claim C9 at a concrete item with 10 on hand and 6 reserved.
\<close>

theorem negative_quantity_rejected_witness:
  "stock_inv (item_with 10 6 0) \<and>
   StockItem_Reserve 0 5 (item_with 10 6 0) = Inr (item_with 10 6 5) \<and>
   StockItem_ReleaseReservation 0 5 (item_with 10 6 0) = Inr (item_with 10 6 5) \<and>
   StockItem_Fulfill 0 5 (item_with 10 6 0) = Inr (item_with 10 6 5) \<and>
   StockItem_Replenish 0 5 (item_with 10 6 0) = Inr (item_with 10 6 5) \<and>
   StockItem_Reserve (- 1) 5 (item_with 10 6 0) = Inl ErrQuantityNegative"
proof -
  have i: "stock_inv (item_with 10 6 0)"
    by (simp add: stock_inv_def item_with_def word_sle_eq)
  have n: "(- 1 :: go_int) <s 0" by (simp add: word_sless_alt)
  have u: "(item_with 10 6 0)\<lparr>UpdatedAt := 5\<rparr> = item_with 10 6 5"
    by (simp add: item_with_def)
  from negative_quantity_rejected [of "- 1" 5 "item_with 10 6 0"] i n u show ?thesis by simp
qed

text \<open>
  Claim C9 as stated, for every stock item, fails on an item outside the invariant:
  with 0 on hand and 1 reserved the available quantity is \<open>-1\<close>, and \<^verbatim>\<open>Reserve(0)\<close>
  returns the insufficient-stock error.
\<close>

theorem zero_quantity_counterexample:
  "StockItem_Reserve 0 1 (item_with 0 1 0) = Inl ErrInsufficientStock"
  by (simp add: StockItem_Reserve_def StockItem_AvailableQuantity_def item_with_def
      word_sless_alt)

section \<open>Reservation claims\<close>

text \<open>
  Claim C1 says that \<^verbatim>\<open>Release\<close> on a reservation in status \<^verbatim>\<open>EXPIRED\<close> returns
  an error. The method guards against \<^verbatim>\<open>RELEASED\<close> and \<^verbatim>\<open>FULFILLED\<close> only: on an
  expired reservation it returns \<^verbatim>\<open>nil\<close> and moves the reservation to
  \<^verbatim>\<open>RELEASED\<close>, recording \<^verbatim>\<open>ReleasedAt\<close>.
\<close>

theorem Release_of_expired_succeeds:
  "terminal (Status (reservation_in ReservationStatusExpired 1)) \<and>
   Reservation_Release 5 (reservation_in ReservationStatusExpired 1) =
     Inr ((reservation_in ReservationStatusReleased 1)
            \<lparr>ReservationUpdatedAt := 5, ReleasedAt := Some 5\<rparr>)"
  by (simp add: Reservation_Release_def reservation_in_def terminal_def status_defs)

text \<open>
  Claim C6. \<^verbatim>\<open>Fulfill\<close> on a reservation succeeds exactly when the status is
  \<^verbatim>\<open>PENDING\<close> or \<^verbatim>\<open>CONFIRMED\<close>; it then sets the status to \<^verbatim>\<open>FULFILLED\<close> and
  records \<^verbatim>\<open>FulfilledAt\<close> (and \<^verbatim>\<open>UpdatedAt\<close>). From any other status it returns an
  error, and the reservation is left as it was.
\<close>

theorem Reservation_Fulfill_iff:
  "(Status r = ReservationStatusPending \<or> Status r = ReservationStatusConfirmed \<longrightarrow>
      Reservation_Fulfill now r =
        Inr (r\<lparr>Status := ReservationStatusFulfilled, FulfilledAt := Some now,
               ReservationUpdatedAt := now\<rparr>))
 \<and> (Status r \<noteq> ReservationStatusPending \<and> Status r \<noteq> ReservationStatusConfirmed \<longrightarrow>
      (\<exists>e. Reservation_Fulfill now r = Inl e))
 \<and> ((\<exists>r'. Reservation_Fulfill now r = Inr r') \<longleftrightarrow>
      Status r = ReservationStatusPending \<or> Status r = ReservationStatusConfirmed)"
  by (auto simp: Reservation_Fulfill_def status_defs)

text \<open>
  Claim C6 at concrete reservations: pending and confirmed are fulfilled, expired
  is refused.
\<close>

theorem Reservation_Fulfill_iff_witness:
  "Reservation_Fulfill 5 (reservation_in ReservationStatusPending 9) =
     Inr ((reservation_in ReservationStatusFulfilled 9)
            \<lparr>ReservationUpdatedAt := 5, FulfilledAt := Some 5\<rparr>) \<and>
   Reservation_Fulfill 5 (reservation_in ReservationStatusConfirmed 9) =
     Inr ((reservation_in ReservationStatusFulfilled 9)
            \<lparr>ReservationUpdatedAt := 5, FulfilledAt := Some 5\<rparr>) \<and>
   (\<exists>e. Reservation_Fulfill 5 (reservation_in ReservationStatusExpired 9) = Inl e)"
proof -
  have p: "Status (reservation_in ReservationStatusPending 9) = ReservationStatusPending"
    and c: "Status (reservation_in ReservationStatusConfirmed 9) = ReservationStatusConfirmed"
    and x: "Status (reservation_in ReservationStatusExpired 9) \<noteq> ReservationStatusPending \<and>
            Status (reservation_in ReservationStatusExpired 9) \<noteq> ReservationStatusConfirmed"
    by (simp_all add: reservation_in_def status_defs)
  from Reservation_Fulfill_iff [of "reservation_in ReservationStatusPending 9" 5] p
  have 1: "Reservation_Fulfill 5 (reservation_in ReservationStatusPending 9) =
     Inr ((reservation_in ReservationStatusFulfilled 9)
            \<lparr>ReservationUpdatedAt := 5, FulfilledAt := Some 5\<rparr>)"
    by (simp add: reservation_in_def)
  from Reservation_Fulfill_iff [of "reservation_in ReservationStatusConfirmed 9" 5] c
  have 2: "Reservation_Fulfill 5 (reservation_in ReservationStatusConfirmed 9) =
     Inr ((reservation_in ReservationStatusFulfilled 9)
            \<lparr>ReservationUpdatedAt := 5, FulfilledAt := Some 5\<rparr>)"
    by (simp add: reservation_in_def)
  from Reservation_Fulfill_iff [of "reservation_in ReservationStatusExpired 9" 5] x
  have 3: "\<exists>e. Reservation_Fulfill 5 (reservation_in ReservationStatusExpired 9) = Inl e"
    by blast
  from 1 2 3 show ?thesis by blast
qed

text \<open>
  Claim C10. On a pending reservation whose \<^verbatim>\<open>ExpiresAt\<close> lies before the current
  time, \<^verbatim>\<open>Confirm\<close> fails with the reservation-expired error (the reservation stays
  pending). \<^verbatim>\<open>Confirm\<close> succeeds, moving to \<^verbatim>\<open>CONFIRMED\<close>, exactly when the
  reservation is pending and the current time is not after \<^verbatim>\<open>ExpiresAt\<close>.
\<close>

theorem Confirm_expiry:
  "(Status r = ReservationStatusPending \<and> ExpiresAt r < now \<longrightarrow>
      Reservation_Confirm now now' r = Inl ErrReservationExpired)
 \<and> (Reservation_Confirm now now' r = Inr r' \<longleftrightarrow>
      Status r = ReservationStatusPending \<and> now \<le> ExpiresAt r \<and>
      r' = r\<lparr>Status := ReservationStatusConfirmed, ReservationUpdatedAt := now'\<rparr>)"
  by (auto simp: Reservation_Confirm_def)

text \<open>
  Claim C10 at a pending reservation that expires at time 9: confirming at time 10
  fails, confirming at time 9 succeeds.
\<close>

theorem Confirm_expiry_witness:
  "Reservation_Confirm 10 11 (reservation_in ReservationStatusPending 9) =
     Inl ErrReservationExpired \<and>
   Reservation_Confirm 9 11 (reservation_in ReservationStatusPending 9) =
     Inr ((reservation_in ReservationStatusConfirmed 9)\<lparr>ReservationUpdatedAt := 11\<rparr>)"
proof -
  have p: "Status (reservation_in ReservationStatusPending 9) = ReservationStatusPending"
    and e: "ExpiresAt (reservation_in ReservationStatusPending 9) = 9"
    by (simp_all add: reservation_in_def)
  from Confirm_expiry [of "reservation_in ReservationStatusPending 9" 10 11] p e
  have 1: "Reservation_Confirm 10 11 (reservation_in ReservationStatusPending 9) =
     Inl ErrReservationExpired" by simp
  from Confirm_expiry [of "reservation_in ReservationStatusPending 9" 9 11
      "(reservation_in ReservationStatusConfirmed 9)\<lparr>ReservationUpdatedAt := 11\<rparr>"] p e
  have 2: "Reservation_Confirm 9 11 (reservation_in ReservationStatusPending 9) =
     Inr ((reservation_in ReservationStatusConfirmed 9)\<lparr>ReservationUpdatedAt := 11\<rparr>)"
    by (simp add: reservation_in_def)
  from 1 2 show ?thesis by simp
qed

section \<open>Outbox claim\<close>

text \<open>
  Claim C8. Whenever \<^verbatim>\<open>fetchPendingEntries\<close> returns entries, each of them is a
  row of the outbox with \<^verbatim>\<open>published_at\<close> unset and \<^verbatim>\<open>retry_count\<close> strictly below
  \<open>max_retries\<close> (rows at or above it are never selected), the entries are in ascending
  \<^verbatim>\<open>created_at\<close> order, and there are at most \<open>limit\<close> of them. It does return entries
  for every non-negative limit; a negative limit is the query error.
\<close>

theorem fetchPendingEntries_selection:
  "(fetchPendingEntries max_retries limit locked outbox = Inr es \<longrightarrow>
      (\<forall>e \<in> set es. e \<in> set outbox \<and> PublishedAt e = None \<and> RetryCount e <s max_retries)
    \<and> sorted (map EntryCreatedAt es)
    \<and> int (length es) \<le> sint limit)
 \<and> (0 \<le>s limit \<longrightarrow> (\<exists>es. fetchPendingEntries max_retries limit locked outbox = Inr es))
 \<and> (limit <s 0 \<longrightarrow> fetchPendingEntries max_retries limit locked outbox = Inl ErrQueryFailed)"
proof -
  let ?sel = "filter (\<lambda>e. \<not> locked e)
                (sort_key EntryCreatedAt (filter (where_pending max_retries) outbox))"
  have members: "e \<in> set outbox \<and> PublishedAt e = None \<and> RetryCount e <s max_retries"
    if "e \<in> set (take n ?sel)" for e n
  proof -
    from that have "e \<in> set ?sel" by (rule in_set_takeD)
    then show ?thesis by (simp add: where_pending_def)
  qed
  have "sorted (map EntryCreatedAt ?sel)"
    by (intro sorted_filter sorted_sort_key)
  then have ordered: "sorted (map EntryCreatedAt (take n ?sel))" for n
    by (simp add: sorted_wrt_take flip: take_map)
  have ok: "(\<forall>e \<in> set es. e \<in> set outbox \<and> PublishedAt e = None \<and> RetryCount e <s max_retries)
    \<and> sorted (map EntryCreatedAt es) \<and> int (length es) \<le> sint limit"
    if "fetchPendingEntries max_retries limit locked outbox = Inr es"
  proof -
    from that have l: "0 \<le> sint limit" and es: "es = take (nat (sint limit)) ?sel"
      by (auto simp: fetch_eq word_sless_alt split: if_splits)
    from l have "int (length es) \<le> sint limit" by (simp add: es)
    with members ordered show ?thesis unfolding es by blast
  qed
  have ret: "\<exists>es. fetchPendingEntries max_retries limit locked outbox = Inr es" if "0 \<le>s limit"
    using that by (simp add: fetch_eq word_sless_alt word_sle_eq)
  have err: "fetchPendingEntries max_retries limit locked outbox = Inl ErrQueryFailed"
    if "limit <s 0"
    using that by (simp add: fetch_eq)
  show ?thesis using ok ret err by blast
qed

text \<open>
  Claim C8 at a concrete outbox with \<open>max_retries = 5\<close> and a batch of 2: the
  published row, the row with 5 retries and the row locked by a peer are left out, and of
  the three remaining rows the two oldest come back, oldest first.
\<close>

theorem fetchPendingEntries_selection_witness:
  "fetchPendingEntries 5 2 (\<lambda>e. EntryID e = ''e5'')
     [outbox_row ''e1'' 30 None 0, outbox_row ''e2'' 10 None 5, outbox_row ''e3'' 20 None 4,
      outbox_row ''e4'' 5 (Some 6) 0, outbox_row ''e5'' 1 None 0, outbox_row ''e6'' 25 None 1]
     = Inr [outbox_row ''e3'' 20 None 4, outbox_row ''e6'' 25 None 1] \<and>
   PublishedAt (outbox_row ''e3'' 20 None 4) = None \<and>
   RetryCount (outbox_row ''e3'' 20 None 4) <s 5 \<and>
   PublishedAt (outbox_row ''e6'' 25 None 1) = None \<and>
   RetryCount (outbox_row ''e6'' 25 None 1) <s 5 \<and>
   sorted (map EntryCreatedAt [outbox_row ''e3'' 20 None 4, outbox_row ''e6'' 25 None 1]) \<and>
   int (length [outbox_row ''e3'' 20 None 4, outbox_row ''e6'' 25 None 1]) \<le> sint (2 :: go_int)"
proof -
  have run: "fetchPendingEntries 5 2 (\<lambda>e. EntryID e = ''e5'')
     [outbox_row ''e1'' 30 None 0, outbox_row ''e2'' 10 None 5, outbox_row ''e3'' 20 None 4,
      outbox_row ''e4'' 5 (Some 6) 0, outbox_row ''e5'' 1 None 0, outbox_row ''e6'' 25 None 1]
     = Inr [outbox_row ''e3'' 20 None 4, outbox_row ''e6'' 25 None 1]"
    by (simp add: fetchPendingEntries_def outbox_query_def where_pending_def outbox_row_def
        word_sless_alt)
  from fetchPendingEntries_selection [of 5 2 "\<lambda>e. EntryID e = ''e5''"
      "[outbox_row ''e1'' 30 None 0, outbox_row ''e2'' 10 None 5, outbox_row ''e3'' 20 None 4,
        outbox_row ''e4'' 5 (Some 6) 0, outbox_row ''e5'' 1 None 0, outbox_row ''e6'' 25 None 1]"
      "[outbox_row ''e3'' 20 None 4, outbox_row ''e6'' 25 None 1]"] run
  show ?thesis by simp
qed

end
